theory Spec2Isabelle
  imports Main "HOL-Library.Sublist"
begin

section \<open>Data model (types/diff.ts)\<close>

text \<open>
  \<^verbatim>\<open>LineType = 'add' | 'remove' | 'unchanged'\<close>. A \<^verbatim>\<open>CharChange\<close> carries the same
  three tags in its \<^verbatim>\<open>type\<close> field.
\<close>

datatype LineType = Add | Remove | Unchanged

record CharChange =
  type :: LineType
  "value" :: string

text \<open>
  The optional members of the TypeScript interfaces (\<^verbatim>\<open>left?\<close>, \<^verbatim>\<open>right?\<close>,
  \<^verbatim>\<open>changes?\<close>) are options: \<open>None\<close> is a member the object literal does not set.
\<close>

record LineNumbers =
  left :: "nat option"
  right :: "nat option"

record DiffLine =
  type :: LineType
  content :: string
  lineNumbers :: LineNumbers
  changes :: "CharChange list option"

text \<open>
  \<^verbatim>\<open>calculateDiffStats\<close> reduces into an object with the three counters and spreads
  it into the \<^verbatim>\<open>DiffStats\<close> it returns; the counters are the parent record.
\<close>

record Counters =
  added :: nat
  removed :: nat
  unchanged :: nat

record DiffStats = Counters +
  totalLeft :: nat
  totalRight :: nat

section \<open>The built-ins the demo engine calls\<close>

text \<open>
  A string is a list of characters, and \<^verbatim>\<open>===\<close> on strings is equality of lists; the
  newline \<^verbatim>\<open>'\n'\<close> is the character \<open>CHR 0x0A\<close>. Line numbers and counts are natural
  numbers: the engine only counts up from 0 and 1.

  \<^verbatim>\<open>s.split(sep)\<close> for a one-character separator: the segments between the
  separators, in order. The empty string gives one empty segment, and a string that ends
  with the separator gives a last segment that is empty.
\<close>

fun split :: "string \<Rightarrow> char \<Rightarrow> string list" where
  "split [] sep = [[]]"
| "split (c # cs) sep =
     (if c = sep then [] # split cs sep
      else (c # hd (split cs sep)) # tl (split cs sep))"

text \<open>
  \<^verbatim>\<open>xs.indexOf(x)\<close>: the first index whose element is strictly equal to \<open>x\<close>, and
  \<open>-1\<close> when there is none.
\<close>

fun indexOf :: "'a list \<Rightarrow> 'a \<Rightarrow> int" where
  "indexOf [] x = - 1"
| "indexOf (y # ys) x =
     (if y = x then 0
      else (let r = indexOf ys x in if r = - 1 then - 1 else r + 1))"

section \<open>generateDiffLines (demo/demoData.ts)\<close>

text \<open>
  The three object literals that the loop pushes. None of them sets \<^verbatim>\<open>changes\<close>; an
  \<^verbatim>\<open>add\<close> line sets only \<^verbatim>\<open>lineNumbers.right\<close>, a \<^verbatim>\<open>remove\<close> line only
  \<^verbatim>\<open>lineNumbers.left\<close>, an \<^verbatim>\<open>unchanged\<close> line both.
\<close>

definition addLine :: "string \<Rightarrow> nat \<Rightarrow> DiffLine" where
  "addLine modLine rightLine =
     \<lparr>type = Add, content = modLine,
      lineNumbers = \<lparr>left = None, right = Some rightLine\<rparr>, changes = None\<rparr>"

definition removeLine :: "string \<Rightarrow> nat \<Rightarrow> DiffLine" where
  "removeLine origLine leftLine =
     \<lparr>type = Remove, content = origLine,
      lineNumbers = \<lparr>left = Some leftLine, right = None\<rparr>, changes = None\<rparr>"

definition unchangedLine :: "string \<Rightarrow> nat \<Rightarrow> nat \<Rightarrow> DiffLine" where
  "unchangedLine origLine leftLine rightLine =
     \<lparr>type = Unchanged, content = origLine,
      lineNumbers = \<lparr>left = Some leftLine, right = Some rightLine\<rparr>, changes = None\<rparr>"

text \<open>
  The \<^verbatim>\<open>while\<close> loop of \<^verbatim>\<open>generateDiffLines\<close>, one recursive call per iteration.
  The loop variables \<^verbatim>\<open>leftLine\<close>, \<^verbatim>\<open>rightLine\<close>, \<^verbatim>\<open>i\<close>, \<^verbatim>\<open>j\<close> and the array
  \<^verbatim>\<open>lines\<close> are arguments; \<^verbatim>\<open>lines.push(x)\<close> is \<open>lines @ [x]\<close>, and
  \<^verbatim>\<open>leftLine++\<close> in a literal uses the old value and passes on the incremented one.

  The source reads \<^verbatim>\<open>originalLines[i]\<close> and \<^verbatim>\<open>modifiedLines[j]\<close> at the top of the
  body, before it tests the bounds. Where an index is past the end JavaScript reads
  \<^verbatim>\<open>undefined\<close>, and the branch taken then (the first or the second) uses only the other
  read. Here each read is bound in the branches that use it, where its index is in range,
  so that the function evaluates on every input; \<open>diffLoop_as_written\<close> below is the
  equation with both reads at the top, as the source has them.
\<close>

function diffLoop ::
  "string list \<Rightarrow> string list \<Rightarrow> nat \<Rightarrow> nat \<Rightarrow> nat \<Rightarrow> nat \<Rightarrow> DiffLine list \<Rightarrow> DiffLine list"
where
  "diffLoop originalLines modifiedLines leftLine rightLine i j lines =
     (if i < length originalLines \<or> j < length modifiedLines then
        (if i \<ge> length originalLines then
           (let modLine = modifiedLines ! j in
            diffLoop originalLines modifiedLines leftLine (rightLine + 1) i (j + 1)
              (lines @ [addLine modLine rightLine]))
         else if j \<ge> length modifiedLines then
           (let origLine = originalLines ! i in
            diffLoop originalLines modifiedLines (leftLine + 1) rightLine (i + 1) j
              (lines @ [removeLine origLine leftLine]))
         else
           (let origLine = originalLines ! i; modLine = modifiedLines ! j in
            if origLine = modLine then
              diffLoop originalLines modifiedLines (leftLine + 1) (rightLine + 1) (i + 1) (j + 1)
                (lines @ [unchangedLine origLine leftLine rightLine])
            else
              (let origInMod = indexOf (drop j modifiedLines) origLine;
                   modInOrig = indexOf (drop i originalLines) modLine in
               if origInMod = - 1 \<and> modInOrig = - 1 then
                 diffLoop originalLines modifiedLines (leftLine + 1) (rightLine + 1)
                   (i + 1) (j + 1)
                   (lines @ [removeLine origLine leftLine] @ [addLine modLine rightLine])
               else if origInMod \<noteq> - 1 \<and> (modInOrig = - 1 \<or> origInMod \<le> modInOrig) then
                 diffLoop originalLines modifiedLines leftLine (rightLine + 1) i (j + 1)
                   (lines @ [addLine modLine rightLine])
               else
                 diffLoop originalLines modifiedLines (leftLine + 1) rightLine (i + 1) j
                   (lines @ [removeLine origLine leftLine]))))
      else lines)"
  by pat_completeness auto
termination
  by (relation "measure (\<lambda>(ol, ml, l, r, i, j, ls). (length ol - i) + (length ml - j))") auto

definition generateDiffLines :: "string \<Rightarrow> string \<Rightarrow> DiffLine list" where
  "generateDiffLines original modified =
     (let originalLines = split original (CHR 0x0A);
          modifiedLines = split modified (CHR 0x0A)
      in diffLoop originalLines modifiedLines 1 1 0 0 [])"

section \<open>calculateDiffStats and generateDemoResult (demo/demoData.ts)\<close>

text \<open>
  \<open>countLine\<close> is the callback of the \<^verbatim>\<open>reduce\<close>; \<^verbatim>\<open>lines.reduce(f, init)\<close> is
  \<open>fold countLine lines init\<close>.
\<close>

definition countLine :: "DiffLine \<Rightarrow> Counters \<Rightarrow> Counters" where
  "countLine line acc =
     (if type line = Add then acc\<lparr>added := added acc + 1\<rparr>
      else if type line = Remove then acc\<lparr>removed := removed acc + 1\<rparr>
      else acc\<lparr>unchanged := unchanged acc + 1\<rparr>)"

definition calculateDiffStats :: "DiffLine list \<Rightarrow> nat \<Rightarrow> nat \<Rightarrow> DiffStats" where
  "calculateDiffStats lines originalLineCount modifiedLineCount =
     (let stats = fold countLine lines \<lparr>added = 0, removed = 0, unchanged = 0\<rparr>
      in \<lparr>added = added stats, removed = removed stats, unchanged = unchanged stats,
          totalLeft = originalLineCount, totalRight = modifiedLineCount\<rparr>)"

record DiffResult =
  lines :: "DiffLine list"
  stats :: DiffStats

definition generateDemoResult :: "string \<Rightarrow> string \<Rightarrow> DiffResult" where
  "generateDemoResult original modified =
     (let ls = generateDiffLines original modified;
          st = calculateDiffStats ls
                 (length (split original (CHR 0x0A)))
                 (length (split modified (CHR 0x0A)))
      in \<lparr>lines = ls, stats = st\<rparr>)"

section \<open>Reference notions of the specification\<close>

text \<open>
  The tokens that the output lines consume on each side, in output order: the left side
  is consumed by the \<^verbatim>\<open>unchanged\<close> and \<^verbatim>\<open>remove\<close> lines, the right side by the
  \<^verbatim>\<open>unchanged\<close> and \<^verbatim>\<open>add\<close> lines.
\<close>

definition leftTokens :: "DiffLine list \<Rightarrow> string list" where
  "leftTokens ls = map content (filter (\<lambda>l. type l = Unchanged \<or> type l = Remove) ls)"

definition rightTokens :: "DiffLine list \<Rightarrow> string list" where
  "rightTokens ls = map content (filter (\<lambda>l. type l = Unchanged \<or> type l = Add) ls)"

text \<open>The number of lines of one kind.\<close>

definition countType :: "LineType \<Rightarrow> DiffLine list \<Rightarrow> nat" where
  "countType t ls = length (filter (\<lambda>l. type l = t) ls)"

text \<open>
  The line-number invariant of the data model: an \<^verbatim>\<open>unchanged\<close> line has both
  numbers, an \<^verbatim>\<open>add\<close> line only the right one, a \<^verbatim>\<open>remove\<close> line only the left one.
\<close>

definition lineNumbersPopulated :: "DiffLine \<Rightarrow> bool" where
  "lineNumbersPopulated l =
     (case type l of
        Unchanged \<Rightarrow> left (lineNumbers l) \<noteq> None \<and> right (lineNumbers l) \<noteq> None
      | Add \<Rightarrow> left (lineNumbers l) = None \<and> right (lineNumbers l) \<noteq> None
      | Remove \<Rightarrow> left (lineNumbers l) \<noteq> None \<and> right (lineNumbers l) = None)"

text \<open>
  Modelled from the spec: the line tokenizer of the specification (section 4.2), which
  the repository does not implement. It splits on line breaks and drops the trailing
  empty segment that a final line terminator produces, so \<^verbatim>\<open>"a\n"\<close> has the one token
  \<^verbatim>\<open>"a"\<close>; the empty string has one token, the empty line. \<open>lineCount\<close> is the number of
  these tokens.
\<close>

definition specLineTokens :: "string \<Rightarrow> string list" where
  "specLineTokens s =
     (if s \<noteq> [] \<and> last s = CHR 0x0A then butlast (split s (CHR 0x0A))
      else split s (CHR 0x0A))"

definition lineCount :: "string \<Rightarrow> nat" where
  "lineCount s = length (specLineTokens s)"

text \<open>
  The reference computation of the length of a longest common subsequence, by the
  textbook recursion. \<open>subseq_lcsLength\<close> and \<open>lcsLength_attained\<close> below show that it is
  the greatest length of a common subsequence.
\<close>

fun lcsLength :: "'a list \<Rightarrow> 'a list \<Rightarrow> nat" where
  "lcsLength [] ys = 0"
| "lcsLength (x # xs) [] = 0"
| "lcsLength (x # xs) (y # ys) =
     (if x = y then Suc (lcsLength xs ys)
      else max (lcsLength xs (y # ys)) (lcsLength (x # xs) ys))"

section \<open>The reference LCS length is the greatest length of a common subsequence\<close>

lemma lcsLength_Nil2 [simp]: "lcsLength xs [] = 0"
  by (cases xs) simp_all

lemma lcsLength_step:
  "(\<forall>x. lcsLength xs ys \<le> lcsLength (x # xs) ys \<and> lcsLength (x # xs) ys \<le> Suc (lcsLength xs ys))
   \<and> (\<forall>y. lcsLength xs ys \<le> lcsLength xs (y # ys) \<and> lcsLength xs (y # ys) \<le> Suc (lcsLength xs ys))"
proof (induction "length xs + length ys" arbitrary: xs ys rule: less_induct)
  case less
  have left: "lcsLength xs ys \<le> lcsLength (x # xs) ys \<and> lcsLength (x # xs) ys \<le> Suc (lcsLength xs ys)" for x
  proof (cases ys)
    case Nil
    then show ?thesis by simp
  next
    case (Cons b ys')
    have "length xs + length ys' < length xs + length ys"
      using Cons by simp
    from less [OF this]
    have h1: "lcsLength xs ys' \<le> lcsLength xs (b # ys')"
      and h2: "lcsLength xs (b # ys') \<le> Suc (lcsLength xs ys')"
      and h3: "lcsLength (x # xs) ys' \<le> Suc (lcsLength xs ys')"
      by blast+
    show ?thesis
    proof (cases "x = b")
      case True
      with Cons h1 h2 show ?thesis by simp
    next
      case False
      with Cons h1 h2 h3 show ?thesis by simp
    qed
  qed
  have right: "lcsLength xs ys \<le> lcsLength xs (y # ys) \<and> lcsLength xs (y # ys) \<le> Suc (lcsLength xs ys)" for y
  proof (cases xs)
    case Nil
    then show ?thesis by simp
  next
    case (Cons a xs')
    have "length xs' + length ys < length xs + length ys"
      using Cons by simp
    from less [OF this]
    have h1: "lcsLength xs' ys \<le> lcsLength (a # xs') ys"
      and h2: "lcsLength (a # xs') ys \<le> Suc (lcsLength xs' ys)"
      and h3: "lcsLength xs' (y # ys) \<le> Suc (lcsLength xs' ys)"
      by blast+
    show ?thesis
    proof (cases "a = y")
      case True
      with Cons h1 h2 show ?thesis by simp
    next
      case False
      with Cons h1 h2 h3 show ?thesis by simp
    qed
  qed
  from left right show ?case by blast
qed

lemma lcsLength_Cons1: "lcsLength xs ys \<le> lcsLength (x # xs) ys"
  using lcsLength_step [of xs ys] by blast

lemma lcsLength_Cons2: "lcsLength xs ys \<le> lcsLength xs (y # ys)"
  using lcsLength_step [of xs ys] by blast

lemma subseq_lcsLength:
  "subseq zs xs \<Longrightarrow> subseq zs ys \<Longrightarrow> length zs \<le> lcsLength xs ys"
proof (induction xs ys arbitrary: zs rule: lcsLength.induct)
  case (1 ys)
  then show ?case by simp
next
  case (2 x xs)
  then show ?case by simp
next
  case (3 x xs y ys)
  show ?case
  proof (cases zs)
    case Nil
    then show ?thesis by simp
  next
    case (Cons z zs')
    show ?thesis
    proof (cases "x = y")
      case True
      show ?thesis
      proof (cases "z = x")
        case True
        with \<open>x = y\<close> Cons "3.prems" have "subseq zs' xs" "subseq zs' ys"
          by simp_all
        with "3.IH"(1) [OF \<open>x = y\<close>] have "length zs' \<le> lcsLength xs ys" .
        with \<open>x = y\<close> Cons show ?thesis by simp
      next
        case False
        with \<open>x = y\<close> Cons "3.prems" have "subseq zs xs" "subseq zs ys"
          by simp_all
        with "3.IH"(1) [OF \<open>x = y\<close>] have "length zs \<le> lcsLength xs ys" .
        with \<open>x = y\<close> show ?thesis by simp
      qed
    next
      case False
      show ?thesis
      proof (cases "z = x")
        case True
        with False Cons "3.prems" have "subseq zs ys"
          by simp
        with "3.IH"(3) [OF False] "3.prems" have "length zs \<le> lcsLength (x # xs) ys"
          by blast
        with False show ?thesis by simp
      next
        case ne: False
        with Cons "3.prems" have "subseq zs xs"
          by simp
        with "3.IH"(2) [OF False] "3.prems" have "length zs \<le> lcsLength xs (y # ys)"
          by blast
        with False show ?thesis by simp
      qed
    qed
  qed
qed

lemma lcsLength_attained:
  "\<exists>zs. subseq zs xs \<and> subseq zs ys \<and> length zs = lcsLength xs ys"
proof (induction xs ys rule: lcsLength.induct)
  case (1 ys)
  show ?case by (rule exI [of _ "[]"]) simp
next
  case (2 x xs)
  show ?case by (rule exI [of _ "[]"]) simp
next
  case (3 x xs y ys)
  show ?case
  proof (cases "x = y")
    case True
    from "3.IH"(1) [OF True] obtain zs where
      "subseq zs xs" "subseq zs ys" "length zs = lcsLength xs ys" by blast
    with True show ?thesis
      by (intro exI [of _ "x # zs"]) simp
  next
    case False
    show ?thesis
    proof (cases "lcsLength (x # xs) ys \<le> lcsLength xs (y # ys)")
      case True
      from "3.IH"(2) [OF False] obtain zs where
        "subseq zs xs" "subseq zs (y # ys)" "length zs = lcsLength xs (y # ys)" by blast
      with False True show ?thesis
        by (intro exI [of _ zs]) (simp add: max_def list_emb_Cons)
    next
      case gt: False
      from "3.IH"(3) [OF False] obtain zs where
        "subseq zs (x # xs)" "subseq zs ys" "length zs = lcsLength (x # xs) ys" by blast
      with False gt show ?thesis
        by (intro exI [of _ zs]) (simp add: max_def list_emb_Cons)
    qed
  qed
qed

section \<open>The loop: one equation per branch, and its induction rule\<close>

declare diffLoop.simps [simp del]

lemma diffLoop_as_written:
  "diffLoop originalLines modifiedLines leftLine rightLine i j ls =
     (if i < length originalLines \<or> j < length modifiedLines then
        (let origLine = originalLines ! i; modLine = modifiedLines ! j in
         if i \<ge> length originalLines then
           diffLoop originalLines modifiedLines leftLine (rightLine + 1) i (j + 1)
             (ls @ [addLine modLine rightLine])
         else if j \<ge> length modifiedLines then
           diffLoop originalLines modifiedLines (leftLine + 1) rightLine (i + 1) j
             (ls @ [removeLine origLine leftLine])
         else if origLine = modLine then
           diffLoop originalLines modifiedLines (leftLine + 1) (rightLine + 1) (i + 1) (j + 1)
             (ls @ [unchangedLine origLine leftLine rightLine])
         else
           (let origInMod = indexOf (drop j modifiedLines) origLine;
                modInOrig = indexOf (drop i originalLines) modLine in
            if origInMod = - 1 \<and> modInOrig = - 1 then
              diffLoop originalLines modifiedLines (leftLine + 1) (rightLine + 1) (i + 1) (j + 1)
                (ls @ [removeLine origLine leftLine] @ [addLine modLine rightLine])
            else if origInMod \<noteq> - 1 \<and> (modInOrig = - 1 \<or> origInMod \<le> modInOrig) then
              diffLoop originalLines modifiedLines leftLine (rightLine + 1) i (j + 1)
                (ls @ [addLine modLine rightLine])
            else
              diffLoop originalLines modifiedLines (leftLine + 1) rightLine (i + 1) j
                (ls @ [removeLine origLine leftLine])))
      else ls)"
  by (subst diffLoop.simps) (simp only: Let_def)

lemma diffLoop_done:
  "length ol \<le> i \<Longrightarrow> length ml \<le> j \<Longrightarrow> diffLoop ol ml l r i j acc = acc"
  by (subst diffLoop.simps) simp

lemma diffLoop_restAdd:
  "length ol \<le> i \<Longrightarrow> j < length ml \<Longrightarrow>
   diffLoop ol ml l r i j acc = diffLoop ol ml l (Suc r) i (Suc j) (acc @ [addLine (ml ! j) r])"
  by (subst diffLoop.simps) simp

lemma diffLoop_restRemove:
  "i < length ol \<Longrightarrow> length ml \<le> j \<Longrightarrow>
   diffLoop ol ml l r i j acc = diffLoop ol ml (Suc l) r (Suc i) j (acc @ [removeLine (ol ! i) l])"
  by (subst diffLoop.simps) simp

lemma diffLoop_match:
  "i < length ol \<Longrightarrow> j < length ml \<Longrightarrow> ol ! i = ml ! j \<Longrightarrow>
   diffLoop ol ml l r i j acc =
     diffLoop ol ml (Suc l) (Suc r) (Suc i) (Suc j) (acc @ [unchangedLine (ol ! i) l r])"
  by (subst diffLoop.simps) simp

lemma diffLoop_modify:
  "i < length ol \<Longrightarrow> j < length ml \<Longrightarrow> ol ! i \<noteq> ml ! j \<Longrightarrow>
   indexOf (drop j ml) (ol ! i) = - 1 \<Longrightarrow> indexOf (drop i ol) (ml ! j) = - 1 \<Longrightarrow>
   diffLoop ol ml l r i j acc =
     diffLoop ol ml (Suc l) (Suc r) (Suc i) (Suc j)
       (acc @ [removeLine (ol ! i) l, addLine (ml ! j) r])"
  by (subst diffLoop.simps) simp

lemma diffLoop_insert:
  "i < length ol \<Longrightarrow> j < length ml \<Longrightarrow> ol ! i \<noteq> ml ! j \<Longrightarrow>
   indexOf (drop j ml) (ol ! i) \<noteq> - 1 \<Longrightarrow>
   indexOf (drop i ol) (ml ! j) = - 1
     \<or> indexOf (drop j ml) (ol ! i) \<le> indexOf (drop i ol) (ml ! j) \<Longrightarrow>
   diffLoop ol ml l r i j acc = diffLoop ol ml l (Suc r) i (Suc j) (acc @ [addLine (ml ! j) r])"
  by (subst diffLoop.simps) (simp add: Let_def)

lemma diffLoop_delete:
  "i < length ol \<Longrightarrow> j < length ml \<Longrightarrow> ol ! i \<noteq> ml ! j \<Longrightarrow>
   indexOf (drop i ol) (ml ! j) \<noteq> - 1 \<Longrightarrow>
   indexOf (drop j ml) (ol ! i) = - 1
     \<or> indexOf (drop i ol) (ml ! j) < indexOf (drop j ml) (ol ! i) \<Longrightarrow>
   diffLoop ol ml l r i j acc = diffLoop ol ml (Suc l) r (Suc i) j (acc @ [removeLine (ol ! i) l])"
  by (subst diffLoop.simps) (auto simp add: Let_def)

lemma diffLoop_cases [case_names finished restAdd restRemove matching modify inserted deleted]:
  assumes "\<And>ol ml l r i j acc. length ol \<le> i \<Longrightarrow> length ml \<le> j \<Longrightarrow> P ol ml l r i j acc"
    and "\<And>ol ml l r i j acc. length ol \<le> i \<Longrightarrow> j < length ml \<Longrightarrow>
           P ol ml l (Suc r) i (Suc j) (acc @ [addLine (ml ! j) r]) \<Longrightarrow> P ol ml l r i j acc"
    and "\<And>ol ml l r i j acc. i < length ol \<Longrightarrow> length ml \<le> j \<Longrightarrow>
           P ol ml (Suc l) r (Suc i) j (acc @ [removeLine (ol ! i) l]) \<Longrightarrow> P ol ml l r i j acc"
    and "\<And>ol ml l r i j acc. i < length ol \<Longrightarrow> j < length ml \<Longrightarrow> ol ! i = ml ! j \<Longrightarrow>
           P ol ml (Suc l) (Suc r) (Suc i) (Suc j) (acc @ [unchangedLine (ol ! i) l r]) \<Longrightarrow>
           P ol ml l r i j acc"
    and "\<And>ol ml l r i j acc. i < length ol \<Longrightarrow> j < length ml \<Longrightarrow> ol ! i \<noteq> ml ! j \<Longrightarrow>
           indexOf (drop j ml) (ol ! i) = - 1 \<Longrightarrow> indexOf (drop i ol) (ml ! j) = - 1 \<Longrightarrow>
           P ol ml (Suc l) (Suc r) (Suc i) (Suc j)
             (acc @ [removeLine (ol ! i) l, addLine (ml ! j) r]) \<Longrightarrow>
           P ol ml l r i j acc"
    and "\<And>ol ml l r i j acc. i < length ol \<Longrightarrow> j < length ml \<Longrightarrow> ol ! i \<noteq> ml ! j \<Longrightarrow>
           indexOf (drop j ml) (ol ! i) \<noteq> - 1 \<Longrightarrow>
           indexOf (drop i ol) (ml ! j) = - 1
             \<or> indexOf (drop j ml) (ol ! i) \<le> indexOf (drop i ol) (ml ! j) \<Longrightarrow>
           P ol ml l (Suc r) i (Suc j) (acc @ [addLine (ml ! j) r]) \<Longrightarrow> P ol ml l r i j acc"
    and "\<And>ol ml l r i j acc. i < length ol \<Longrightarrow> j < length ml \<Longrightarrow> ol ! i \<noteq> ml ! j \<Longrightarrow>
           indexOf (drop i ol) (ml ! j) \<noteq> - 1 \<Longrightarrow>
           indexOf (drop j ml) (ol ! i) = - 1
             \<or> indexOf (drop i ol) (ml ! j) < indexOf (drop j ml) (ol ! i) \<Longrightarrow>
           P ol ml (Suc l) r (Suc i) j (acc @ [removeLine (ol ! i) l]) \<Longrightarrow> P ol ml l r i j acc"
  shows "P ol ml l r i j acc"
proof (induction ol ml l r i j acc rule: diffLoop.induct)
  case (1 ol ml l r i j acc)
  show ?case
  proof (cases "i < length ol")
    case iout: False
    show ?thesis
    proof (cases "j < length ml")
      case False
      with iout show ?thesis by - (rule assms(1), simp_all)
    next
      case True
      with iout "1.IH"(1) [OF _ _ refl] show ?thesis
        by - (rule assms(2), simp_all)
    qed
  next
    case iin: True
    show ?thesis
    proof (cases "j < length ml")
      case False
      with iin "1.IH"(2) [OF _ _ _ refl] show ?thesis
        by - (rule assms(3), simp_all)
    next
      case jin: True
      show ?thesis
      proof (cases "ol ! i = ml ! j")
        case True
        with iin jin "1.IH"(3) [OF _ _ _ refl refl] show ?thesis
          by - (rule assms(4), simp_all)
      next
        case ne: False
        show ?thesis
        proof (cases "indexOf (drop j ml) (ol ! i) = - 1 \<and> indexOf (drop i ol) (ml ! j) = - 1")
          case True
          with iin jin ne "1.IH"(4) [OF _ _ _ refl refl _ refl refl] show ?thesis
            by - (rule assms(5), simp_all)
        next
          case nb: False
          show ?thesis
          proof (cases "indexOf (drop j ml) (ol ! i) \<noteq> - 1
              \<and> (indexOf (drop i ol) (ml ! j) = - 1
                   \<or> indexOf (drop j ml) (ol ! i) \<le> indexOf (drop i ol) (ml ! j))")
            case True
            with iin jin ne nb "1.IH"(5) [OF _ _ _ refl refl _ refl refl] show ?thesis
              by - (rule assms(6), simp_all)
          next
            case False
            with nb have g: "indexOf (drop i ol) (ml ! j) \<noteq> - 1"
              "indexOf (drop j ml) (ol ! i) = - 1
                 \<or> indexOf (drop i ol) (ml ! j) < indexOf (drop j ml) (ol ! i)"
              by auto
            from iin jin ne nb False "1.IH"(6) [OF _ _ _ refl refl _ refl refl]
            have "P ol ml (Suc l) r (Suc i) j (acc @ [removeLine (ol ! i) l])"
              by simp
            with iin jin ne g show ?thesis
              by - (rule assms(7), simp_all)
          qed
        qed
      qed
    qed
  qed
qed

section \<open>Projections of the pushed lines\<close>

lemma leftTokens_simps [simp]:
  "leftTokens [] = []"
  "leftTokens (xs @ ys) = leftTokens xs @ leftTokens ys"
  "leftTokens (addLine c n # xs) = leftTokens xs"
  "leftTokens (removeLine c n # xs) = c # leftTokens xs"
  "leftTokens (unchangedLine c n m # xs) = c # leftTokens xs"
  by (simp_all add: leftTokens_def addLine_def removeLine_def unchangedLine_def)

lemma rightTokens_simps [simp]:
  "rightTokens [] = []"
  "rightTokens (xs @ ys) = rightTokens xs @ rightTokens ys"
  "rightTokens (addLine c n # xs) = c # rightTokens xs"
  "rightTokens (removeLine c n # xs) = rightTokens xs"
  "rightTokens (unchangedLine c n m # xs) = c # rightTokens xs"
  by (simp_all add: rightTokens_def addLine_def removeLine_def unchangedLine_def)

lemma countType_simps [simp]:
  "countType t [] = 0"
  "countType t (xs @ ys) = countType t xs + countType t ys"
  "countType t (addLine c n # xs) = (if t = Add then 1 else 0) + countType t xs"
  "countType t (removeLine c n # xs) = (if t = Remove then 1 else 0) + countType t xs"
  "countType t (unchangedLine c n m # xs) = (if t = Unchanged then 1 else 0) + countType t xs"
  by (auto simp add: countType_def addLine_def removeLine_def unchangedLine_def)

lemma lineNumbersPopulated_simps [simp]:
  "lineNumbersPopulated (addLine c n)"
  "lineNumbersPopulated (removeLine c n)"
  "lineNumbersPopulated (unchangedLine c n m)"
  by (simp_all add: lineNumbersPopulated_def addLine_def removeLine_def unchangedLine_def)

lemma changes_simps [simp]:
  "changes (addLine c n) = None"
  "changes (removeLine c n) = None"
  "changes (unchangedLine c n m) = None"
  by (simp_all add: addLine_def removeLine_def unchangedLine_def)

lemma type_simps [simp]:
  "type (addLine c n) = Add"
  "type (removeLine c n) = Remove"
  "type (unchangedLine c n m) = Unchanged"
  by (simp_all add: addLine_def removeLine_def unchangedLine_def)

lemma drop_nth: "i < length xs \<Longrightarrow> drop i xs = xs ! i # drop (Suc i) xs"
  by (simp add: Cons_nth_drop_Suc)

lemma leftTokens_diffLoop:
  "leftTokens (diffLoop ol ml l r i j acc) = leftTokens acc @ drop i ol"
proof (induction ol ml l r i j acc rule: diffLoop_cases)
  case (finished ol ml l r i j acc)
  then show ?case by (simp add: diffLoop_done)
next
  case (restAdd ol ml l r i j acc)
  then show ?case by (simp add: diffLoop_restAdd)
next
  case (restRemove ol ml l r i j acc)
  then show ?case by (simp add: diffLoop_restRemove drop_nth [of i ol])
next
  case (matching ol ml l r i j acc)
  then show ?case by (simp add: diffLoop_match drop_nth [of i ol])
next
  case (modify ol ml l r i j acc)
  then show ?case by (simp add: diffLoop_modify drop_nth [of i ol])
next
  case (inserted ol ml l r i j acc)
  then show ?case by (simp add: diffLoop_insert)
next
  case (deleted ol ml l r i j acc)
  then show ?case by (simp add: diffLoop_delete drop_nth [of i ol])
qed

lemma rightTokens_diffLoop:
  "rightTokens (diffLoop ol ml l r i j acc) = rightTokens acc @ drop j ml"
proof (induction ol ml l r i j acc rule: diffLoop_cases)
  case (finished ol ml l r i j acc)
  then show ?case by (simp add: diffLoop_done)
next
  case (restAdd ol ml l r i j acc)
  then show ?case by (simp add: diffLoop_restAdd drop_nth [of j ml])
next
  case (restRemove ol ml l r i j acc)
  then show ?case by (simp add: diffLoop_restRemove)
next
  case (matching ol ml l r i j acc)
  then show ?case by (simp add: diffLoop_match drop_nth [of j ml])
next
  case (modify ol ml l r i j acc)
  then show ?case by (simp add: diffLoop_modify drop_nth [of j ml])
next
  case (inserted ol ml l r i j acc)
  then show ?case by (simp add: diffLoop_insert drop_nth [of j ml])
next
  case (deleted ol ml l r i j acc)
  then show ?case by (simp add: diffLoop_delete)
qed

lemma lineNumbers_diffLoop:
  "list_all lineNumbersPopulated (diffLoop ol ml l r i j acc) = list_all lineNumbersPopulated acc"
proof (induction ol ml l r i j acc rule: diffLoop_cases)
  case (finished ol ml l r i j acc)
  then show ?case by (simp add: diffLoop_done)
next
  case (restAdd ol ml l r i j acc)
  then show ?case by (simp add: diffLoop_restAdd)
next
  case (restRemove ol ml l r i j acc)
  then show ?case by (simp add: diffLoop_restRemove)
next
  case (matching ol ml l r i j acc)
  then show ?case by (simp add: diffLoop_match)
next
  case (modify ol ml l r i j acc)
  then show ?case by (simp add: diffLoop_modify)
next
  case (inserted ol ml l r i j acc)
  then show ?case by (simp add: diffLoop_insert)
next
  case (deleted ol ml l r i j acc)
  then show ?case by (simp add: diffLoop_delete)
qed

lemma changes_diffLoop:
  "list_all (\<lambda>l. changes l = None) (diffLoop ol ml l r i j acc)
     = list_all (\<lambda>l. changes l = None) acc"
proof (induction ol ml l r i j acc rule: diffLoop_cases)
  case (finished ol ml l r i j acc)
  then show ?case by (simp add: diffLoop_done)
next
  case (restAdd ol ml l r i j acc)
  then show ?case by (simp add: diffLoop_restAdd)
next
  case (restRemove ol ml l r i j acc)
  then show ?case by (simp add: diffLoop_restRemove)
next
  case (matching ol ml l r i j acc)
  then show ?case by (simp add: diffLoop_match)
next
  case (modify ol ml l r i j acc)
  then show ?case by (simp add: diffLoop_modify)
next
  case (inserted ol ml l r i j acc)
  then show ?case by (simp add: diffLoop_insert)
next
  case (deleted ol ml l r i j acc)
  then show ?case by (simp add: diffLoop_delete)
qed

lemma lcsLength_drop1:
  "i < length xs \<Longrightarrow> lcsLength (drop (Suc i) xs) ys \<le> lcsLength (drop i xs) ys"
  by (simp add: drop_nth [of i xs] lcsLength_Cons1)

lemma lcsLength_drop2:
  "j < length ys \<Longrightarrow> lcsLength xs (drop (Suc j) ys) \<le> lcsLength xs (drop j ys)"
  by (simp add: drop_nth [of j ys] lcsLength_Cons2)

lemma lcsLength_drop_match:
  "i < length xs \<Longrightarrow> j < length ys \<Longrightarrow> xs ! i = ys ! j \<Longrightarrow>
   lcsLength (drop i xs) (drop j ys) = Suc (lcsLength (drop (Suc i) xs) (drop (Suc j) ys))"
  by (simp add: drop_nth [of i xs] drop_nth [of j ys])

lemma unchanged_diffLoop:
  "countType Unchanged (diffLoop ol ml l r i j acc)
     \<le> countType Unchanged acc + lcsLength (drop i ol) (drop j ml)"
proof (induction ol ml l r i j acc rule: diffLoop_cases)
  case (finished ol ml l r i j acc)
  then show ?case by (simp add: diffLoop_done)
next
  case (restAdd ol ml l r i j acc)
  then show ?case by (simp add: diffLoop_restAdd)
next
  case (restRemove ol ml l r i j acc)
  then show ?case by (simp add: diffLoop_restRemove)
next
  case (matching ol ml l r i j acc)
  then show ?case by (simp add: diffLoop_match lcsLength_drop_match)
next
  case (modify ol ml l r i j acc)
  with lcsLength_drop1 [of i ol "drop (Suc j) ml"] lcsLength_drop2 [of j ml "drop i ol"]
  show ?case by (simp add: diffLoop_modify)
next
  case (inserted ol ml l r i j acc)
  with lcsLength_drop2 [of j ml "drop i ol"]
  show ?case by (simp add: diffLoop_insert)
next
  case (deleted ol ml l r i j acc)
  with lcsLength_drop1 [of i ol "drop j ml"]
  show ?case by (simp add: diffLoop_delete)
qed

lemma identity_diffLoop:
  "ol = ml \<Longrightarrow> i = j \<Longrightarrow>
   map type (diffLoop ol ml l r i j acc) = map type acc @ replicate (length ol - i) Unchanged"
proof (induction ol ml l r i j acc rule: diffLoop_cases)
  case (finished ol ml l r i j acc)
  then show ?case by (simp add: diffLoop_done)
next
  case (matching ol ml l r i j acc)
  then show ?case
    by (simp add: diffLoop_match Suc_diff_Suc replicate_append_same flip: replicate_Suc)
qed simp_all

section \<open>Facts about the built-ins\<close>

lemma split_not_Nil [simp]: "split s sep \<noteq> []"
  by (cases s) simp_all

text \<open>The number of segments is the number of separators plus one.\<close>

lemma length_split: "length (split s sep) = Suc (count_list s sep)"
proof (induction s)
  case Nil
  show ?case by simp
next
  case (Cons c cs)
  have "length (tl (split cs sep)) = count_list cs sep"
    using Cons by simp
  with Cons show ?case by simp
qed

lemma split_snoc_sep: "split (s @ [sep]) sep = split s sep @ [[]]"
proof (induction s)
  case Nil
  show ?case by simp
next
  case (Cons c cs)
  then show ?case by (simp add: hd_append)
qed

lemma split_no_sep: "sep \<notin> set s \<Longrightarrow> split s sep = [s]"
  by (induction s) auto

text \<open>
  The engine's segments against the line tokens of the specification: one more segment
  exactly when the text ends in a newline.
\<close>

lemma specLineTokens_snoc: "specLineTokens (s @ [CHR 0x0A]) = split s (CHR 0x0A)"
  by (simp add: specLineTokens_def split_snoc_sep)

lemma length_split_lineCount:
  "length (split s (CHR 0x0A))
     = (if s \<noteq> [] \<and> last s = CHR 0x0A then lineCount s + 1 else lineCount s)"
  by (simp add: lineCount_def specLineTokens_def)

section \<open>The reduce of calculateDiffStats, and the whole engine\<close>

lemma fold_countLine:
  "fold countLine ls c =
     \<lparr>added = added c + countType Add ls, removed = removed c + countType Remove ls,
      unchanged = unchanged c + countType Unchanged ls\<rparr>"
proof (induction ls arbitrary: c)
  case Nil
  show ?case by simp
next
  case (Cons x xs)
  have "fold countLine (x # xs) c = fold countLine xs (countLine x c)"
    by simp
  also have "\<dots> =
     \<lparr>added = added (countLine x c) + countType Add xs,
      removed = removed (countLine x c) + countType Remove xs,
      unchanged = unchanged (countLine x c) + countType Unchanged xs\<rparr>"
    by (rule Cons)
  also have "\<dots> =
     \<lparr>added = added c + countType Add (x # xs), removed = removed c + countType Remove (x # xs),
      unchanged = unchanged c + countType Unchanged (x # xs)\<rparr>"
    by (cases "type x") (simp_all add: countLine_def countType_def)
  finally show ?case .
qed

lemma calculateDiffStats_counts:
  "calculateDiffStats ls a b =
     \<lparr>added = countType Add ls, removed = countType Remove ls,
      unchanged = countType Unchanged ls, totalLeft = a, totalRight = b\<rparr>"
  by (simp add: calculateDiffStats_def fold_countLine)

lemma length_leftTokens:
  "length (leftTokens ls) = countType Remove ls + countType Unchanged ls"
proof (induction ls)
  case Nil
  show ?case by simp
next
  case (Cons x xs)
  then show ?case
    by (cases "type x") (simp_all add: leftTokens_def countType_def)
qed

lemma length_rightTokens:
  "length (rightTokens ls) = countType Add ls + countType Unchanged ls"
proof (induction ls)
  case Nil
  show ?case by simp
next
  case (Cons x xs)
  then show ?case
    by (cases "type x") (simp_all add: rightTokens_def countType_def)
qed

lemma leftTokens_generateDiffLines:
  "leftTokens (generateDiffLines original modified) = split original (CHR 0x0A)"
  by (simp add: generateDiffLines_def leftTokens_diffLoop)

lemma rightTokens_generateDiffLines:
  "rightTokens (generateDiffLines original modified) = split modified (CHR 0x0A)"
  by (simp add: generateDiffLines_def rightTokens_diffLoop)

lemma unchanged_generateDiffLines:
  "countType Unchanged (generateDiffLines original modified)
     \<le> lcsLength (split original (CHR 0x0A)) (split modified (CHR 0x0A))"
  using unchanged_diffLoop [of "split original (CHR 0x0A)" "split modified (CHR 0x0A)" 1 1 0 0 "[]"]
  by (simp add: generateDiffLines_def)

text \<open>
  Twice the LCS length never exceeds the sum of the two lengths, so the subtraction in
  \<open>leftLength + rightLength - 2 * LCSLength\<close> is exact on natural numbers.
\<close>

lemma lcsLength_le_length: "lcsLength xs ys \<le> length xs \<and> lcsLength xs ys \<le> length ys"
  by (induction xs ys rule: lcsLength.induct) auto

lemma stats_generateDemoResult:
  "stats (generateDemoResult original modified) =
     calculateDiffStats (generateDiffLines original modified)
       (length (split original (CHR 0x0A))) (length (split modified (CHR 0x0A)))"
  by (simp add: generateDemoResult_def Let_def)

lemma length_split_left:
  "length (split original (CHR 0x0A))
     = countType Remove (generateDiffLines original modified)
       + countType Unchanged (generateDiffLines original modified)"
  using length_leftTokens [of "generateDiffLines original modified"]
  by (simp add: leftTokens_generateDiffLines)

lemma length_split_right:
  "length (split modified (CHR 0x0A))
     = countType Add (generateDiffLines original modified)
       + countType Unchanged (generateDiffLines original modified)"
  using length_rightTokens [of "generateDiffLines original modified"]
  by (simp add: rightTokens_generateDiffLines)

lemma types_generateDiffLines_same:
  "map type (generateDiffLines s s) = replicate (length (split s (CHR 0x0A))) Unchanged"
  using identity_diffLoop [of "split s (CHR 0x0A)" "split s (CHR 0x0A)" 0 0 1 1 "[]"]
  by (simp add: generateDiffLines_def)

lemma countType_map_type: "countType t ls = count_list (map type ls) t"
  by (induction ls) (simp_all add: countType_def)

lemma count_list_replicate: "count_list (replicate n x) y = (if x = y then n else 0)"
  by (induction n) auto

section \<open>The repository's tests of demoData, on the model\<close>

text \<open>
  The cases of \<^verbatim>\<open>demoData.test.ts\<close>, evaluated: the model returns what the tests expect
  of the source.
\<close>

lemma test_identical_strings:
  "generateDiffLines ''hello'' ''hello'' = [unchangedLine ''hello'' 1 1]"
  by code_simp

lemma test_added_lines:
  "generateDiffLines ''original'' ''original\<newline>new line''
     = [unchangedLine ''original'' 1 1, addLine ''new line'' 2]"
  by code_simp

lemma test_removed_lines:
  "generateDiffLines ''old line\<newline>original'' ''original''
     = [removeLine ''old line'' 1, unchangedLine ''original'' 2 1]"
  by code_simp

lemma test_multi_line_changes:
  "generateDiffLines ''line1\<newline>line2\<newline>line3'' ''line1\<newline>modified\<newline>line3''
     = [unchangedLine ''line1'' 1 1, removeLine ''line2'' 2, addLine ''modified'' 2,
        unchangedLine ''line3'' 3 3]"
  by code_simp

lemma test_calculateDiffStats:
  "calculateDiffStats [unchangedLine ''a'' 1 1, addLine ''b'' 2, removeLine ''c'' 2] 2 2
     = \<lparr>added = 1, removed = 1, unchanged = 1, totalLeft = 2, totalRight = 2\<rparr>"
  by code_simp

section \<open>The claims\<close>

subsection \<open>C1: minimality of the edit script\<close>

text \<open>
  C1, as stated: the number of \<^verbatim>\<open>add\<close> plus \<^verbatim>\<open>remove\<close> lines equals
  \<open>leftLength + rightLength - 2 * LCSLength\<close>. It fails for the left text with the lines
  a, z, P, Q and the right text with the lines P, Q, a: the loop looks for the nearest
  re-occurrence of the current line only, pushes P and Q as added, keeps a, and removes
  z, P and Q. That is five edit lines, where the longest common subsequence (P, Q) allows
  three.
\<close>

theorem C1_minimality_counterexample:
  "\<not> (countType Add (generateDiffLines ''a\<newline>z\<newline>P\<newline>Q'' ''P\<newline>Q\<newline>a'')
        + countType Remove (generateDiffLines ''a\<newline>z\<newline>P\<newline>Q'' ''P\<newline>Q\<newline>a'')
      = length (split ''a\<newline>z\<newline>P\<newline>Q'' (CHR 0x0A))
        + length (split ''P\<newline>Q\<newline>a'' (CHR 0x0A))
        - 2 * lcsLength (split ''a\<newline>z\<newline>P\<newline>Q'' (CHR 0x0A))
                        (split ''P\<newline>Q\<newline>a'' (CHR 0x0A)))"
  by code_simp

text \<open>
  C1, amended: for every pair of input strings the number of \<^verbatim>\<open>add\<close> plus \<^verbatim>\<open>remove\<close>
  lines equals \<open>leftLength + rightLength - 2 * unchanged\<close>, where \<open>unchanged\<close> is the number
  of \<^verbatim>\<open>unchanged\<close> lines of the output (stated below without subtraction); that number
  is at most the LCS length of the two line-token sequences, so the edit count is at least
  (and not always equal to) \<open>leftLength + rightLength - 2 * LCSLength\<close>.
\<close>

theorem C1_edit_count:
  "countType Add (generateDiffLines original modified)
     + countType Remove (generateDiffLines original modified)
     + 2 * countType Unchanged (generateDiffLines original modified)
   = length (split original (CHR 0x0A)) + length (split modified (CHR 0x0A))
   \<and> countType Unchanged (generateDiffLines original modified)
       \<le> lcsLength (split original (CHR 0x0A)) (split modified (CHR 0x0A))
   \<and> length (split original (CHR 0x0A)) + length (split modified (CHR 0x0A))
       - 2 * lcsLength (split original (CHR 0x0A)) (split modified (CHR 0x0A))
     \<le> countType Add (generateDiffLines original modified)
       + countType Remove (generateDiffLines original modified)"
proof -
  note l = length_split_left [of original modified]
  note r = length_split_right [of modified original]
  have u: "countType Unchanged (generateDiffLines original modified)
      \<le> lcsLength (split original (CHR 0x0A)) (split modified (CHR 0x0A))"
    by (rule unchanged_generateDiffLines)
  from l r u show ?thesis by simp
qed

subsection \<open>C2: round trip\<close>

text \<open>
  C2: for every pair of input strings, the contents of the left-consuming lines
  (\<^verbatim>\<open>unchanged\<close> and \<^verbatim>\<open>remove\<close>) of \<^verbatim>\<open>generateDiffLines\<close>, in output order, are exactly
  the line tokens of the left input, and the contents of the right-consuming lines
  (\<^verbatim>\<open>unchanged\<close> and \<^verbatim>\<open>add\<close>) are exactly the line tokens of the right input.
\<close>

theorem C2_round_trip:
  "leftTokens (generateDiffLines original modified) = split original (CHR 0x0A)
   \<and> rightTokens (generateDiffLines original modified) = split modified (CHR 0x0A)"
  by (simp add: leftTokens_generateDiffLines rightTokens_generateDiffLines)

subsection \<open>C3: coverage of the statistics of generateDemoResult\<close>

text \<open>
  C3: for every pair of input strings, the statistics of the result of
  \<^verbatim>\<open>generateDemoResult\<close> satisfy \<open>totalLeft = removed + unchanged\<close> and
  \<open>totalRight = added + unchanged\<close>. The totals are the lengths of the two split inputs;
  they agree with the counts because the output lines consume each side exactly.
\<close>

theorem C3_coverage:
  "totalLeft (stats (generateDemoResult original modified))
     = removed (stats (generateDemoResult original modified))
       + unchanged (stats (generateDemoResult original modified))
   \<and> totalRight (stats (generateDemoResult original modified))
     = added (stats (generateDemoResult original modified))
       + unchanged (stats (generateDemoResult original modified))"
  using length_split_left [of original modified] length_split_right [of modified original]
  by (simp add: stats_generateDemoResult calculateDiffStats_counts)

subsection \<open>C4: the trailing empty segment\<close>

text \<open>
  C4, as stated: tokenizing \<^verbatim>\<open>"a\n"\<close> at line granularity yields the one token
  \<^verbatim>\<open>"a"\<close>, and the line count of an input that ends in a newline excludes the final empty
  segment. The engine splits with \<^verbatim>\<open>split('\n')\<close> and keeps every segment: \<^verbatim>\<open>"a\n"\<close>
  gives two tokens, and \<open>totalLeft\<close> is 2.
\<close>

theorem C4_trailing_segment_counterexample:
  "\<not> (split ''a\<newline>'' (CHR 0x0A) = [''a''])
   \<and> \<not> (totalLeft (stats (generateDemoResult ''a\<newline>'' ''a\<newline>'')) = 1)"
  by code_simp

text \<open>
  C4, amended: the engine keeps the trailing empty segment. Tokenizing \<^verbatim>\<open>"a\n"\<close> yields
  the two tokens \<^verbatim>\<open>"a"\<close> and \<^verbatim>\<open>""\<close>; for every input that ends in a newline the line
  tokens are those of the input without that newline followed by one empty token, the
  output consumes that empty token on the left side, and \<open>totalLeft\<close> counts it.
\<close>

theorem C4_trailing_segment_kept:
  "split ''a\<newline>'' (CHR 0x0A) = [''a'', '''']
   \<and> split (s @ [CHR 0x0A]) (CHR 0x0A) = split s (CHR 0x0A) @ ['''']
   \<and> leftTokens (generateDiffLines (s @ [CHR 0x0A]) t) = split s (CHR 0x0A) @ ['''']
   \<and> totalLeft (stats (generateDemoResult (s @ [CHR 0x0A]) t)) = length (split s (CHR 0x0A)) + 1"
  by (simp add: split_snoc_sep leftTokens_generateDiffLines stats_generateDemoResult
      calculateDiffStats_counts)

subsection \<open>C5: identity\<close>

text \<open>
  C5, as stated: the diff of a non-empty string \<open>s\<close> against itself has the statistics
  \<open>added = 0\<close>, \<open>removed = 0\<close> and \<open>unchanged = lineCount s\<close>. With the line count of the
  specification, which does not count the empty segment after a final newline, it fails
  for \<^verbatim>\<open>"a\n"\<close>: the engine keeps that segment and reports two unchanged lines, where the
  line count is 1.
\<close>

theorem C5_identity_counterexample:
  "\<not> (added (stats (generateDemoResult ''a\<newline>'' ''a\<newline>'')) = 0
      \<and> removed (stats (generateDemoResult ''a\<newline>'' ''a\<newline>'')) = 0
      \<and> unchanged (stats (generateDemoResult ''a\<newline>'' ''a\<newline>'')) = lineCount ''a\<newline>'')"
  by code_simp

text \<open>
  C5, amended: the diff of any string \<open>s\<close> against itself has the statistics
  \<open>added = 0\<close>, \<open>removed = 0\<close> and \<open>unchanged\<close> equal to the number of segments of
  \<^verbatim>\<open>s.split('\n')\<close> (which is also both totals); that number is \<open>lineCount s\<close> when \<open>s\<close>
  does not end in a newline and \<open>lineCount s + 1\<close> when it does. For the empty string the
  result is exactly one \<^verbatim>\<open>unchanged\<close> line with empty content.
\<close>

theorem C5_identity_counts_segments:
  "stats (generateDemoResult s s)
     = \<lparr>added = 0, removed = 0, unchanged = length (split s (CHR 0x0A)),
        totalLeft = length (split s (CHR 0x0A)), totalRight = length (split s (CHR 0x0A))\<rparr>
   \<and> length (split s (CHR 0x0A))
     = (if s \<noteq> [] \<and> last s = CHR 0x0A then lineCount s + 1 else lineCount s)
   \<and> lines (generateDemoResult '''' '''')
     = [\<lparr>type = Unchanged, content = '''',
         lineNumbers = \<lparr>left = Some 1, right = Some 1\<rparr>, changes = None\<rparr>]"
proof -
  have "stats (generateDemoResult s s)
     = \<lparr>added = 0, removed = 0, unchanged = length (split s (CHR 0x0A)),
        totalLeft = length (split s (CHR 0x0A)), totalRight = length (split s (CHR 0x0A))\<rparr>"
    by (simp add: stats_generateDemoResult calculateDiffStats_counts countType_map_type
        types_generateDiffLines_same count_list_replicate)
  moreover have "lines (generateDemoResult '''' '''')
     = [\<lparr>type = Unchanged, content = '''',
         lineNumbers = \<lparr>left = Some 1, right = Some 1\<rparr>, changes = None\<rparr>]"
    by code_simp
  ultimately show ?thesis
    using length_split_lineCount [of s] by simp
qed

subsection \<open>C6: single-line modification\<close>

text \<open>
  C6, as stated: for left \<^verbatim>\<open>"cat"\<close> and right \<^verbatim>\<open>"car"\<close> the \<^verbatim>\<open>remove\<close> line and the
  \<^verbatim>\<open>add\<close> line each carry inline character changes. The engine pushes both lines
  without the \<^verbatim>\<open>changes\<close> member: neither line carries inline changes.
\<close>

theorem C6_inline_changes_counterexample:
  "changes (generateDiffLines ''cat'' ''car'' ! 0) = None
   \<and> changes (generateDiffLines ''cat'' ''car'' ! 1) = None"
  by code_simp

text \<open>
  C6, amended: for left \<^verbatim>\<open>"cat"\<close> and right \<^verbatim>\<open>"car"\<close> the engine produces a \<^verbatim>\<open>remove\<close>
  line with content \<^verbatim>\<open>"cat"\<close> (left line 1) immediately followed by an \<^verbatim>\<open>add\<close> line with
  content \<^verbatim>\<open>"car"\<close> (right line 1), and nothing else; neither line carries inline character
  changes, and no line that the engine produces for any input does.
\<close>

theorem C6_modification_without_inline_changes:
  "generateDiffLines ''cat'' ''car''
     = [\<lparr>type = Remove, content = ''cat'',
         lineNumbers = \<lparr>left = Some 1, right = None\<rparr>, changes = None\<rparr>,
        \<lparr>type = Add, content = ''car'',
         lineNumbers = \<lparr>left = None, right = Some 1\<rparr>, changes = None\<rparr>]
   \<and> list_all (\<lambda>l. changes l = None) (generateDiffLines original modified)"
proof -
  have "generateDiffLines ''cat'' ''car''
     = [\<lparr>type = Remove, content = ''cat'',
         lineNumbers = \<lparr>left = Some 1, right = None\<rparr>, changes = None\<rparr>,
        \<lparr>type = Add, content = ''car'',
         lineNumbers = \<lparr>left = None, right = Some 1\<rparr>, changes = None\<rparr>]"
    by code_simp
  moreover have "list_all (\<lambda>l. changes l = None) (generateDiffLines original modified)"
    by (simp add: generateDiffLines_def changes_diffLoop)
  ultimately show ?thesis by simp
qed

subsection \<open>C7: case\<close>

text \<open>
  C7, as stated: for left \<^verbatim>\<open>"Hello"\<close> and right \<^verbatim>\<open>"hello"\<close> the engine produces exactly
  one \<^verbatim>\<open>unchanged\<close> line with content \<^verbatim>\<open>"Hello"\<close>. The engine takes no options and
  compares lines with \<^verbatim>\<open>===\<close>: the two lines differ, and the output is a \<^verbatim>\<open>remove\<close> line
  and an \<^verbatim>\<open>add\<close> line.
\<close>

theorem C7_ignoreCase_counterexample:
  "\<not> (map type (generateDiffLines ''Hello'' ''hello'') = [Unchanged]
      \<and> map content (generateDiffLines ''Hello'' ''hello'') = [''Hello''])"
  by code_simp

text \<open>
  C7, amended: the engine has no \<^verbatim>\<open>ignoreCase\<close> option and matches lines by exact,
  case-sensitive equality. For two one-line inputs it produces one \<^verbatim>\<open>unchanged\<close> line
  with the left value exactly when the two inputs are equal, and otherwise a \<^verbatim>\<open>remove\<close>
  line with the left value followed by an \<^verbatim>\<open>add\<close> line with the right value; for left
  \<^verbatim>\<open>"Hello"\<close> and right \<^verbatim>\<open>"hello"\<close> that is \<^verbatim>\<open>remove "Hello"\<close>, then \<^verbatim>\<open>add "hello"\<close>.
\<close>

theorem C7_one_line_inputs:
  assumes "CHR 0x0A \<notin> set a" and "CHR 0x0A \<notin> set b"
  shows "generateDiffLines a b =
    (if a = b then
       [\<lparr>type = Unchanged, content = a,
         lineNumbers = \<lparr>left = Some 1, right = Some 1\<rparr>, changes = None\<rparr>]
     else
       [\<lparr>type = Remove, content = a,
         lineNumbers = \<lparr>left = Some 1, right = None\<rparr>, changes = None\<rparr>,
        \<lparr>type = Add, content = b,
         lineNumbers = \<lparr>left = None, right = Some 1\<rparr>, changes = None\<rparr>])"
proof -
  from assms have s: "split a (CHR 0x0A) = [a]" "split b (CHR 0x0A) = [b]"
    by (simp_all add: split_no_sep)
  show ?thesis
  proof (cases "a = b")
    case True
    then have "diffLoop [a] [b] 1 1 0 0 [] = [unchangedLine a 1 1]"
      by (simp add: diffLoop_match diffLoop_done)
    with True s show ?thesis
      by (simp add: generateDiffLines_def unchangedLine_def)
  next
    case False
    then have "diffLoop [a] [b] 1 1 0 0 [] = [removeLine a 1, addLine b 1]"
      by (simp add: diffLoop_modify diffLoop_done)
    with False s show ?thesis
      by (simp add: generateDiffLines_def removeLine_def addLine_def)
  qed
qed

text \<open>The amended C7 at the inputs of the claim, \<^verbatim>\<open>"Hello"\<close> and \<^verbatim>\<open>"hello"\<close>.\<close>

theorem C7_one_line_inputs_witness:
  "CHR 0x0A \<notin> set ''Hello'' \<and> CHR 0x0A \<notin> set ''hello''
   \<and> generateDiffLines ''Hello'' ''hello''
     = [\<lparr>type = Remove, content = ''Hello'',
         lineNumbers = \<lparr>left = Some 1, right = None\<rparr>, changes = None\<rparr>,
        \<lparr>type = Add, content = ''hello'',
         lineNumbers = \<lparr>left = None, right = Some 1\<rparr>, changes = None\<rparr>]"
proof -
  have h1: "CHR 0x0A \<notin> set ''Hello''" by simp
  have h2: "CHR 0x0A \<notin> set ''hello''" by simp
  show ?thesis
    using h1 h2 C7_one_line_inputs [OF h1 h2] by simp
qed

subsection \<open>C8: where calculateDiffStats takes the totals from\<close>

text \<open>
  C8, as stated: for every list of lines and every pair of supplied line counts the
  statistics of \<^verbatim>\<open>calculateDiffStats\<close> satisfy \<open>totalLeft = removed + unchanged\<close> and
  \<open>totalRight = added + unchanged\<close>. The function copies the two supplied counts into the
  totals: for the empty list and the counts 1 and 1 the totals are 1 and the sums are 0.
\<close>

theorem C8_totals_counterexample:
  "\<not> (totalLeft (calculateDiffStats [] 1 1)
        = removed (calculateDiffStats [] 1 1) + unchanged (calculateDiffStats [] 1 1)
      \<and> totalRight (calculateDiffStats [] 1 1)
        = added (calculateDiffStats [] 1 1) + unchanged (calculateDiffStats [] 1 1))"
  by code_simp

text \<open>
  C8, amended: \<^verbatim>\<open>calculateDiffStats\<close> counts \<open>added\<close>, \<open>removed\<close> and \<open>unchanged\<close> from
  the lines by kind, and takes \<open>totalLeft\<close> and \<open>totalRight\<close> from the two supplied line
  counts, unchanged. So \<open>totalLeft = removed + unchanged\<close> holds exactly when the supplied
  left count is that sum, and \<open>totalRight = added + unchanged\<close> exactly when the supplied
  right count is that sum.
\<close>

theorem C8_totals_are_the_supplied_counts:
  "calculateDiffStats ls originalLineCount modifiedLineCount
     = \<lparr>added = countType Add ls, removed = countType Remove ls,
        unchanged = countType Unchanged ls,
        totalLeft = originalLineCount, totalRight = modifiedLineCount\<rparr>
   \<and> (totalLeft (calculateDiffStats ls originalLineCount modifiedLineCount)
        = removed (calculateDiffStats ls originalLineCount modifiedLineCount)
          + unchanged (calculateDiffStats ls originalLineCount modifiedLineCount))
     = (originalLineCount = countType Remove ls + countType Unchanged ls)
   \<and> (totalRight (calculateDiffStats ls originalLineCount modifiedLineCount)
        = added (calculateDiffStats ls originalLineCount modifiedLineCount)
          + unchanged (calculateDiffStats ls originalLineCount modifiedLineCount))
     = (modifiedLineCount = countType Add ls + countType Unchanged ls)"
  by (simp add: calculateDiffStats_counts)

subsection \<open>C9: line numbers\<close>

text \<open>
  C9: in every list of lines that \<^verbatim>\<open>generateDiffLines\<close> produces, an \<^verbatim>\<open>unchanged\<close> line
  has both the left and the right line number, an \<^verbatim>\<open>add\<close> line has only the right one,
  and a \<^verbatim>\<open>remove\<close> line has only the left one.
\<close>

theorem C9_line_numbers_populated:
  "list_all lineNumbersPopulated (generateDiffLines original modified)"
  by (simp add: generateDiffLines_def lineNumbers_diffLoop)

subsection \<open>C10: the output is never empty\<close>

text \<open>
  C10: for every pair of input strings, both empty included, \<^verbatim>\<open>generateDiffLines\<close>
  returns a non-empty list: each split has at least one segment, and the output lines
  consume all of them.
\<close>

theorem C10_output_not_empty:
  "generateDiffLines original modified \<noteq> []"
proof
  assume "generateDiffLines original modified = []"
  then have "leftTokens (generateDiffLines original modified) = []"
    by simp
  then show False
    by (simp add: leftTokens_generateDiffLines)
qed

end
